theory Spec2Isabelle
  imports Main
begin

section \<open>JavaScript values and operators used by the lockout code\<close>

text \<open>
  The lockout code of \<^verbatim>\<open>author.model.js\<close> mixes numbers, strings read from
  \<^verbatim>\<open>process.env\<close> and \<^verbatim>\<open>undefined\<close> under \<^verbatim>\<open>+\<close>, \<^verbatim>\<open>>=\<close> and \<^verbatim>\<open>||\<close>, so the
  values are modelled as a datatype. Numbers are the integers the code handles
  (millisecond timestamps and attempt counters) plus \<^verbatim>\<open>NaN\<close>.
\<close>

datatype jsval = JUndefined | JNull | JBool bool | JNum int | JNaN | JStr string

fun truthy :: "jsval \<Rightarrow> bool" where
  "truthy JUndefined = False"
| "truthy JNull = False"
| "truthy (JBool b) = b"
| "truthy (JNum n) = (n \<noteq> 0)"
| "truthy JNaN = False"
| "truthy (JStr s) = (s \<noteq> [])"

definition js_or :: "jsval \<Rightarrow> jsval \<Rightarrow> jsval" where
  \<comment> \<open>\<^verbatim>\<open>a || b\<close>: the left operand when it is truthy, else the right one\<close>
  "js_or a b = (if truthy a then a else b)"

text \<open>
  A JavaScript number is a double, and so is a \<^verbatim>\<open>Number\<close> path of a stored document.
  On integers a sum is the exact sum rounded to the nearest integer that a double
  holds (53 significant bits, ties to the even one): exact up to \<open>2 ^ 53\<close>, and
  from there on \<open>n + 1\<close> may well be \<open>n\<close>.
\<close>

fun bit_length :: "nat \<Rightarrow> nat" where
  "bit_length n = (if n = 0 then 0 else Suc (bit_length (n div 2)))"

declare bit_length.simps [simp del]

definition double_round :: "int \<Rightarrow> int" where
  "double_round m =
     (let a = nat \<bar>m\<bar>;
          q = 2 ^ (bit_length a - 53);
          r = a mod q;
          lo = a - r;
          up = (if 2 * r < q then lo
                else if q < 2 * r then lo + q
                else if even (lo div q) then lo else lo + q)
      in sgn m * int up)"

definition digit_char :: "nat \<Rightarrow> char" where
  "digit_char d = ''0123456789'' ! d"

fun string_of_nat :: "nat \<Rightarrow> string" where
  "string_of_nat n =
     (if n < 10 then [digit_char n]
      else string_of_nat (n div 10) @ [digit_char (n mod 10)])"

declare string_of_nat.simps [simp del]

definition string_of_int :: "int \<Rightarrow> string" where
  "string_of_int i =
     (if i < 0 then CHR ''-'' # string_of_nat (nat (- i)) else string_of_nat (nat i))"

fun js_to_string :: "jsval \<Rightarrow> string" where
  "js_to_string JUndefined = ''undefined''"
| "js_to_string JNull = ''null''"
| "js_to_string (JBool b) = (if b then ''true'' else ''false'')"
| "js_to_string (JNum n) = string_of_int n"
| "js_to_string JNaN = ''NaN''"
| "js_to_string (JStr s) = s"

text \<open>
  What lies outside the repository is taken as a parameter: the password hasher
  (\<^verbatim>\<open>bcrypt.compare\<close>), the token library (\<^verbatim>\<open>jwt.sign\<close>, \<^verbatim>\<open>jwt.verify\<close>), the
  engine's reading of a string as a number and its \<^verbatim>\<open>toLowerCase\<close> and \<^verbatim>\<open>trim\<close>
  (\<open>lowercase_trim\<close>: what the schema's \<^verbatim>\<open>lowercase: true, trim: true\<close> do to an email),
  and the document library's cast of a string to a date. Every theorem below holds
  for all of them.
\<close>

datatype payload = AccessPayload nat string string | RefreshPayload nat

datatype verify_outcome =
    Decoded nat int
  | TokenExpiredError
  | JsonWebTokenError
  | OtherVerifyError

record externals =
  bcrypt_compare :: "string \<Rightarrow> string \<Rightarrow> bool"
  lowercase_trim :: "string \<Rightarrow> string"
  string_to_number :: "string \<Rightarrow> jsval"
  cast_date_string :: "string \<Rightarrow> int option"
  jwt_sign :: "payload \<Rightarrow> int \<Rightarrow> string"
  jwt_verify :: "string \<Rightarrow> verify_outcome"

fun js_to_number :: "externals \<Rightarrow> jsval \<Rightarrow> jsval" where
  "js_to_number X JUndefined = JNaN"
| "js_to_number X JNull = JNum 0"
| "js_to_number X (JBool b) = JNum (if b then 1 else 0)"
| "js_to_number X (JNum n) = JNum n"
| "js_to_number X JNaN = JNaN"
| "js_to_number X (JStr s) = string_to_number X s"

fun is_string :: "jsval \<Rightarrow> bool" where
  "is_string (JStr s) = True"
| "is_string v = False"

definition js_plus :: "externals \<Rightarrow> jsval \<Rightarrow> jsval \<Rightarrow> jsval" where
  \<comment> \<open>\<^verbatim>\<open>a + b\<close>: concatenation as soon as one operand is a string, else numeric\<close>
  "js_plus X a b =
     (if is_string a \<or> is_string b then JStr (js_to_string a @ js_to_string b)
      else (case (js_to_number X a, js_to_number X b) of
              (JNum x, JNum y) \<Rightarrow> JNum (double_round (x + y))
            | _ \<Rightarrow> JNaN))"

definition js_ge :: "externals \<Rightarrow> jsval \<Rightarrow> jsval \<Rightarrow> bool" where
  \<comment> \<open>\<^verbatim>\<open>a >= b\<close> with a left operand that is not a string (the only use here):
      both sides are read as numbers, and a comparison with \<^verbatim>\<open>NaN\<close> is false\<close>
  "js_ge X a b =
     (case (js_to_number X a, js_to_number X b) of
        (JNum x, JNum y) \<Rightarrow> x \<ge> y
      | _ \<Rightarrow> False)"

fun env_value :: "string option \<Rightarrow> jsval" where
  "env_value None = JUndefined"
| "env_value (Some s) = JStr s"

fun num_value :: "int option \<Rightarrow> jsval" where
  "num_value None = JUndefined"
| "num_value (Some n) = JNum n"

record process_env =
  MAX_LOGIN_ATTEMPTS :: "string option"
  LOCK_TIME :: "string option"

section \<open>The account documents\<close>

text \<open>
  \<^verbatim>\<open>authorSchema\<close> and \<^verbatim>\<open>userSchema\<close> declare the same fields and the same methods
  (the second half of \<^verbatim>\<open>author.model.js\<close> is the first with \<^verbatim>\<open>user\<close> for
  \<^verbatim>\<open>author\<close>), so one record stands for both. The profile fields (names, phone,
  avatar, bio, links) are never read by the operations below and are left out.
  The fields declared \<^verbatim>\<open>select: false\<close> (\<^verbatim>\<open>password\<close>, \<^verbatim>\<open>passwordChangedAt\<close>,
  \<^verbatim>\<open>loginAttempts\<close>, \<^verbatim>\<open>lockUntil\<close>, \<^verbatim>\<open>refreshToken\<close>) are options: \<open>None\<close> is
  \<^verbatim>\<open>undefined\<close>, which is what a loaded document holds for a field the query
  did not select. Dates are milliseconds since the epoch. \<^verbatim>\<open>createdAt\<close> and
  \<^verbatim>\<open>updatedAt\<close> are the two paths of \<^verbatim>\<open>timestamps: true\<close>: every \<^verbatim>\<open>updateOne\<close> and
  every \<^verbatim>\<open>save()\<close> of a modified document stamps \<^verbatim>\<open>updatedAt\<close>. The email is stored
  lowercased and trimmed, and the same is done to the email of a query filter.
\<close>

record login_entry =
  device :: string
  ipAddress :: string
  timestamp :: int

record account =
  doc_id :: nat
  email :: string
  role :: string
  password :: "string option"
  passwordChangedAt :: "int option"
  loginHistory :: "login_entry list"
  loginAttempts :: "int option"
  lockUntil :: "int option"
  isVerified :: bool
  isActive :: bool
  refreshToken :: "string option"
  lastActive :: "int option"
  isDeleted :: bool
  createdAt :: "int option"
  updatedAt :: "int option"

text \<open>
  The state: one collection of documents, and the number of times the password
  hasher has been invoked.
\<close>

record world =
  db :: "account list"
  compares :: nat

datatype failure = ApiError nat string | CastError | HashError | TypeError

subsection \<open>Queries and projections\<close>

definition select_default :: "account \<Rightarrow> account" where
  \<comment> \<open>a query that does not re-select them drops every \<^verbatim>\<open>select: false\<close> field;
      so does \<^verbatim>\<open>.select("-password -refreshToken ...")\<close>, an exclusion list\<close>
  "select_default a =
     a\<lparr>password := None, passwordChangedAt := None, loginAttempts := None,
       lockUntil := None, refreshToken := None\<rparr>"

definition select_credentials :: "account \<Rightarrow> account" where
  \<comment> \<open>\<^verbatim>\<open>.select("+password +loginAttempts +lockUntil")\<close>\<close>
  "select_credentials a = a\<lparr>passwordChangedAt := None, refreshToken := None\<rparr>"

definition findOne :: "externals \<Rightarrow> account list \<Rightarrow> string \<Rightarrow> account option" where
  \<comment> \<open>\<^verbatim>\<open>this.findOne({ email, isActive: true })\<close>; the filter's email is cast like a
      stored one, so it is lowercased and trimmed before it is compared\<close>
  "findOne X coll e = find (\<lambda>a. email a = lowercase_trim X e \<and> isActive a) coll"

definition findById :: "account list \<Rightarrow> nat \<Rightarrow> account option" where
  "findById coll i = find (\<lambda>a. doc_id a = i) coll"

definition update_by_id :: "nat \<Rightarrow> (account \<Rightarrow> account) \<Rightarrow> account list \<Rightarrow> account list" where
  \<comment> \<open>a write filtered by \<^verbatim>\<open>_id\<close>\<close>
  "update_by_id i f coll = map (\<lambda>d. if doc_id d = i then f d else d) coll"

definition attempts_of :: "account \<Rightarrow> int" where
  \<comment> \<open>the stored counter, a missing one read as 0\<close>
  "attempts_of d = (case loginAttempts d of None \<Rightarrow> 0 | Some n \<Rightarrow> n)"

subsection \<open>Update documents\<close>

record update_doc =
  inc_loginAttempts :: "int option"
  set_loginAttempts :: "int option"
  set_lockUntil :: "jsval option"

definition max_date :: int where
  "max_date = 8640000000000000"

definition castDate :: "externals \<Rightarrow> jsval \<Rightarrow> failure + int option" where
  \<comment> \<open>the document library's cast of a value written to a \<^verbatim>\<open>Date\<close> path:
      \<^verbatim>\<open>null\<close> stays \<^verbatim>\<open>null\<close>, a number is that many milliseconds, an invalid
      date is refused\<close>
  "castDate X v =
     (case v of
        JUndefined \<Rightarrow> Inr None
      | JNull \<Rightarrow> Inr None
      | JBool b \<Rightarrow> Inl CastError
      | JNum n \<Rightarrow> (if - max_date \<le> n \<and> n \<le> max_date then Inr (Some n) else Inl CastError)
      | JNaN \<Rightarrow> Inl CastError
      | JStr s \<Rightarrow>
          (if s = [] then Inr None
           else (case cast_date_string X s of
                   None \<Rightarrow> Inl CastError
                 | Some t \<Rightarrow> Inr (Some t))))"

definition apply_inc :: "int option \<Rightarrow> account \<Rightarrow> account" where
  \<comment> \<open>\<^verbatim>\<open>$inc\<close> adds to the stored number, in doubles; a missing field counts from 0\<close>
  "apply_inc i d =
     (case i of
        None \<Rightarrow> d
      | Some k \<Rightarrow> d\<lparr>loginAttempts := Some (double_round (attempts_of d + k))\<rparr>)"

definition apply_set_attempts :: "int option \<Rightarrow> account \<Rightarrow> account" where
  "apply_set_attempts s d = (case s of None \<Rightarrow> d | Some n \<Rightarrow> d\<lparr>loginAttempts := Some n\<rparr>)"

definition updateOne ::
  "externals \<Rightarrow> int \<Rightarrow> account \<Rightarrow> update_doc \<Rightarrow> account list \<Rightarrow> failure + account list" where
  \<comment> \<open>\<^verbatim>\<open>this.updateOne(updates)\<close>: the update is cast against the schema first, and
      a failed cast rejects the whole update; the stored document with this
      \<^verbatim>\<open>_id\<close> is changed and its \<^verbatim>\<open>updatedAt\<close> stamped (\<^verbatim>\<open>timestamps: true\<close>), the
      document in memory is not touched\<close>
  "updateOne X now this u coll =
     (case set_lockUntil u of
        None \<Rightarrow>
          Inr (update_by_id (doc_id this)
                 (\<lambda>d. (apply_set_attempts (set_loginAttempts u)
                          (apply_inc (inc_loginAttempts u) d))\<lparr>updatedAt := Some now\<rparr>) coll)
      | Some v \<Rightarrow>
          (case castDate X v of
             Inl err \<Rightarrow> Inl err
           | Inr t \<Rightarrow>
               Inr (update_by_id (doc_id this)
                      (\<lambda>d. (apply_set_attempts (set_loginAttempts u)
                               (apply_inc (inc_loginAttempts u) d))
                            \<lparr>lockUntil := t, updatedAt := Some now\<rparr>) coll)))"

section \<open>Instance methods (\<^verbatim>\<open>author.model.js\<close>, lines 212--282)\<close>

text \<open>
  The clock is an argument: the readings of \<^verbatim>\<open>Date.now()\<close> within one call are one
  instant \<open>now\<close>. A query compares the email as it is given. The device descriptor
  of \<^verbatim>\<open>recordLogin\<close> is the string it stores (\<^verbatim>\<open>JSON.stringify\<close> of an object is taken
  as done). \<^verbatim>\<open>updateOne\<close> and \<^verbatim>\<open>save\<close> write to the collection; \<^verbatim>\<open>updateOne\<close>
  leaves the document in memory as it was loaded.
\<close>

definition generateAccessToken :: "externals \<Rightarrow> int \<Rightarrow> account \<Rightarrow> string" where
  "generateAccessToken X now this = jwt_sign X (AccessPayload (doc_id this) (email this) (role this)) now"

definition generateRefreshToken :: "externals \<Rightarrow> int \<Rightarrow> account \<Rightarrow> string" where
  "generateRefreshToken X now this = jwt_sign X (RefreshPayload (doc_id this)) now"

definition comparePassword :: "externals \<Rightarrow> account \<Rightarrow> string \<Rightarrow> world \<Rightarrow> (failure + bool) \<times> world" where
  \<comment> \<open>\<^verbatim>\<open>bcrypt.compare(candidatePassword, this.password)\<close>; the hasher refuses a
      missing hash\<close>
  "comparePassword X this candidatePassword w =
     (case password this of
        None \<Rightarrow> (Inl HashError, w\<lparr>compares := Suc (compares w)\<rparr>)
      | Some h \<Rightarrow> (Inr (bcrypt_compare X candidatePassword h), w\<lparr>compares := Suc (compares w)\<rparr>))"

definition trunc_seconds :: "int \<Rightarrow> int" where
  \<comment> \<open>\<^verbatim>\<open>parseInt(ms / 1000, 10)\<close>: the quotient with its fraction cut off\<close>
  "trunc_seconds ms = (if ms \<ge> 0 then ms div 1000 else - ((- ms) div 1000))"

definition changedPasswordAfter :: "account \<Rightarrow> int \<Rightarrow> bool" where
  "changedPasswordAfter this JWTTimestamp =
     (case passwordChangedAt this of
        Some ms \<Rightarrow> JWTTimestamp < trunc_seconds ms
      | None \<Rightarrow> False)"

definition isAccountLocked :: "int \<Rightarrow> account \<Rightarrow> bool" where
  \<comment> \<open>\<^verbatim>\<open>this.lockUntil && this.lockUntil > Date.now()\<close>, read as a condition\<close>
  "isAccountLocked now this =
     (case lockUntil this of None \<Rightarrow> False | Some t \<Rightarrow> t > now)"

definition lock_condition :: "externals \<Rightarrow> process_env \<Rightarrow> account \<Rightarrow> jsval" where
  \<comment> \<open>\<^verbatim>\<open>this.loginAttempts + 1 >= process.env.MAX_LOGIN_ATTEMPTS || 5\<close>;
      \<^verbatim>\<open>>=\<close> binds tighter than \<^verbatim>\<open>||\<close>\<close>
  "lock_condition X env this =
     js_or (JBool (js_ge X (js_plus X (num_value (loginAttempts this)) (JNum 1))
                          (env_value (MAX_LOGIN_ATTEMPTS env))))
           (JNum 5)"

definition lock_value :: "externals \<Rightarrow> process_env \<Rightarrow> int \<Rightarrow> jsval" where
  \<comment> \<open>\<^verbatim>\<open>Date.now() + process.env.LOCK_TIME || 2 * 60 * 60 * 1000\<close>;
      \<^verbatim>\<open>+\<close> binds tighter than \<^verbatim>\<open>||\<close>\<close>
  "lock_value X env now =
     js_or (js_plus X (JNum now) (env_value (LOCK_TIME env))) (JNum (2 * 60 * 60 * 1000))"

definition store_accepts_lock :: "externals \<Rightarrow> process_env \<Rightarrow> int \<Rightarrow> bool" where
  \<comment> \<open>the store accepts the value that a failed attempt writes to \<^verbatim>\<open>lockUntil\<close>\<close>
  "store_accepts_lock X env now = (\<not> isl (castDate X (lock_value X env now)))"

definition incrementLoginAttempts ::
  "externals \<Rightarrow> process_env \<Rightarrow> int \<Rightarrow> account \<Rightarrow> account list \<Rightarrow> failure + account list" where
  "incrementLoginAttempts X env now this coll =
     (if isAccountLocked now this then Inr coll
      else
        let updates = \<lparr>inc_loginAttempts = Some 1, set_loginAttempts = None, set_lockUntil = None\<rparr>;
            updates' = (if truthy (lock_condition X env this)
                        then updates\<lparr>set_lockUntil := Some (lock_value X env now)\<rparr>
                        else updates)
        in updateOne X now this updates' coll)"

definition resetLoginAttempts ::
  "externals \<Rightarrow> int \<Rightarrow> account \<Rightarrow> account list \<Rightarrow> failure + account list" where
  "resetLoginAttempts X now this coll =
     updateOne X now this
       \<lparr>inc_loginAttempts = None, set_loginAttempts = Some 0, set_lockUntil = Some JNull\<rparr> coll"

definition recordLogin :: "int \<Rightarrow> account \<Rightarrow> string \<Rightarrow> string \<Rightarrow> world \<Rightarrow> account \<times> world" where
  \<comment> \<open>the entry is pushed, \<^verbatim>\<open>lastActive\<close> stamped, and \<^verbatim>\<open>save()\<close> writes these two
      modified paths and \<^verbatim>\<open>updatedAt\<close>\<close>
  "recordLogin now this deviceInfo ip w =
     (let entry = \<lparr>device = deviceInfo, ipAddress = ip, timestamp = now\<rparr>;
          this' = this\<lparr>loginHistory := loginHistory this @ [entry], lastActive := Some now,
                      updatedAt := Some now\<rparr>
      in (this',
          w\<lparr>db := update_by_id (doc_id this)
                     (\<lambda>d. d\<lparr>loginHistory := loginHistory d @ [entry], lastActive := Some now,
                            updatedAt := Some now\<rparr>)
                     (db w)\<rparr>))"

section \<open>\<^verbatim>\<open>findByCredentials\<close> (lines 285--300) and the login services\<close>

definition findByCredentials ::
  "externals \<Rightarrow> process_env \<Rightarrow> int \<Rightarrow> world \<Rightarrow> string \<Rightarrow> string \<Rightarrow> (failure + account option) \<times> world" where
  "findByCredentials X env now w e pw =
     (case findOne X (db w) e of
        None \<Rightarrow> (Inr None, w)
      | Some stored \<Rightarrow>
          let author = select_credentials stored in
          if isAccountLocked now author then (Inr None, w)
          else
            (case comparePassword X author pw w of
               (Inl err, w1) \<Rightarrow> (Inl err, w1)
             | (Inr isMatch, w1) \<Rightarrow>
                 if \<not> isMatch then
                   (case incrementLoginAttempts X env now author (db w1) of
                      Inl err \<Rightarrow> (Inl err, w1)
                    | Inr coll \<Rightarrow> (Inr None, w1\<lparr>db := coll\<rparr>))
                 else
                   (case resetLoginAttempts X now author (db w1) of
                      Inl err \<Rightarrow> (Inl err, w1)
                    | Inr coll \<Rightarrow> (Inr (Some author), w1\<lparr>db := coll\<rparr>))))"

record account_view =
  view_id :: nat
  view_email :: string
  view_role :: string
  view_isVerified :: bool
  view_isActive :: bool
  view_lastActive :: "int option"

record login_result =
  author_view :: account_view
  accessToken :: string
  refreshToken_out :: string

definition invalid_login :: failure where
  "invalid_login = ApiError 401 ''Invalid email or password''"

definition account_inactive :: failure where
  "account_inactive = ApiError 403 ''Account is inactive''"

definition account_unverified :: failure where
  "account_unverified = ApiError 403 ''Please verify your account first''"

definition loginAuthor ::
  "externals \<Rightarrow> process_env \<Rightarrow> int \<Rightarrow> world \<Rightarrow> string \<Rightarrow> string \<Rightarrow> string \<Rightarrow> string
     \<Rightarrow> (failure + login_result) \<times> world" where
  \<comment> \<open>\<^verbatim>\<open>loginAuthor\<close> of \<^verbatim>\<open>author.service.js\<close>; the \<^verbatim>\<open>catch\<close> logs and rethrows;
      \<^verbatim>\<open>author.accessToken\<close> is not a path of the schema, so the last \<^verbatim>\<open>save()\<close>
      writes the refresh token (and \<^verbatim>\<open>updatedAt\<close>) only\<close>
  "loginAuthor X env now w e pw deviceInfo ip =
     (case findByCredentials X env now w e pw of
        (Inl err, w1) \<Rightarrow> (Inl err, w1)
      | (Inr None, w1) \<Rightarrow> (Inl invalid_login, w1)
      | (Inr (Some author), w1) \<Rightarrow>
          if \<not> isActive author then (Inl account_inactive, w1)
          else if \<not> isVerified author then (Inl account_unverified, w1)
          else
            let (author1, w2) = recordLogin now author deviceInfo ip w1;
                at = generateAccessToken X now author1;
                rt = generateRefreshToken X now author1;
                w3 = w2\<lparr>db := update_by_id (doc_id author1)
                                 (\<lambda>d. d\<lparr>refreshToken := Some rt, updatedAt := Some now\<rparr>) (db w2)\<rparr>
            in (Inr \<lparr>author_view =
                       \<lparr>view_id = doc_id author1, view_email = email author1,
                        view_role = role author1, view_isVerified = isVerified author1,
                        view_isActive = isActive author1, view_lastActive = lastActive author1\<rparr>,
                     accessToken = at, refreshToken_out = rt\<rparr>, w3))"

definition loginUser ::
  "externals \<Rightarrow> process_env \<Rightarrow> int \<Rightarrow> world \<Rightarrow> string \<Rightarrow> string \<Rightarrow> string \<Rightarrow> string
     \<Rightarrow> (failure + login_result) \<times> world" where
  \<comment> \<open>\<^verbatim>\<open>loginUser\<close> of \<^verbatim>\<open>user.service.js\<close> is \<^verbatim>\<open>loginAuthor\<close> with \<^verbatim>\<open>user\<close> for
      \<^verbatim>\<open>author\<close>, over the user collection\<close>
  "loginUser = loginAuthor"

section \<open>\<^verbatim>\<open>adminLogin\<close> (\<^verbatim>\<open>admin.service.js\<close>, lines 235--263)\<close>

text \<open>
  Modelled from the spec: the Admin schema (\<^verbatim>\<open>models/admin.model.js\<close>) is not among
  the sources; the spec's data model gives admin, author and user accounts one
  shape, so an admin document is an \<open>account\<close> too. The token helper
  \<^verbatim>\<open>generateAdminAccessAndRefreshTokens\<close> (\<^verbatim>\<open>utils/tokenUtils.js\<close>) is missing as
  well and is a parameter, and so is the query \<^verbatim>\<open>Admin.findOne({ email })\<close>, whose
  casts are the missing schema's. The service itself is modelled from its source.
\<close>

definition adminLogin ::
  "externals \<Rightarrow> (account list \<Rightarrow> string \<Rightarrow> account option)
     \<Rightarrow> (nat \<Rightarrow> world \<Rightarrow> (string \<times> string) \<times> world) \<Rightarrow> world \<Rightarrow> string \<Rightarrow> string
     \<Rightarrow> (failure + account \<times> string \<times> string) \<times> world" where
  "adminLogin X adminFindOne generateAdminAccessAndRefreshTokens w e pw =
     (case adminFindOne (db w) e of
        None \<Rightarrow> (Inl invalid_login, w)
      | Some admin \<Rightarrow>
          (case password admin of
             None \<Rightarrow> (Inl HashError, w\<lparr>compares := Suc (compares w)\<rparr>)
           | Some h \<Rightarrow>
               let w1 = w\<lparr>compares := Suc (compares w)\<rparr> in
               if \<not> bcrypt_compare X pw h then (Inl invalid_login, w1)
               else
                 let ((at, rt), w2) = generateAdminAccessAndRefreshTokens (doc_id admin) w1 in
                 (case findById (db w2) (doc_id admin) of
                    None \<Rightarrow> (Inl TypeError, w2)
                  | Some adminData \<Rightarrow>
                      (Inr (adminData\<lparr>password := None, refreshToken := None\<rparr>, at, rt), w2))))"

section \<open>\<^verbatim>\<open>verifyJWT\<close> (the author authentication middleware)\<close>

fun replace_first :: "string \<Rightarrow> string \<Rightarrow> string \<Rightarrow> string" where
  "replace_first pat rep [] = (if pat = [] then rep else [])"
| "replace_first pat rep (c # cs) =
     (if take (length pat) (c # cs) = pat then rep @ drop (length pat) (c # cs)
      else c # replace_first pat rep cs)"

definition extract_token :: "string option \<Rightarrow> string option \<Rightarrow> string option" where
  \<comment> \<open>\<^verbatim>\<open>req.cookies?.accessToken || req.header("Authorization")?.replace("Bearer ", "")\<close>\<close>
  "extract_token cookie header =
     (case cookie of
        Some c \<Rightarrow> (if c \<noteq> [] then Some c else map_option (replace_first ''Bearer '' []) header)
      | None \<Rightarrow> map_option (replace_first ''Bearer '' []) header)"

definition password_changed :: failure where
  "password_changed = ApiError 401 ''Unauthorized - Password changed recently. Please login again''"

definition verifyJWT :: "externals \<Rightarrow> account list \<Rightarrow> string option \<Rightarrow> string option \<Rightarrow> failure + account" where
  \<comment> \<open>the query is \<^verbatim>\<open>Author.findById(id).select("-password -refreshToken ...")\<close>: an
      exclusion list, which does not bring back the \<^verbatim>\<open>select: false\<close> fields\<close>
  "verifyJWT X coll cookie header =
     (case extract_token cookie header of
        None \<Rightarrow> Inl (ApiError 401 ''Unauthorized - No token provided'')
      | Some token \<Rightarrow>
          if token = [] then Inl (ApiError 401 ''Unauthorized - No token provided'')
          else
            (case jwt_verify X token of
               TokenExpiredError \<Rightarrow> Inl (ApiError 401 ''Unauthorized - Token expired'')
             | JsonWebTokenError \<Rightarrow> Inl (ApiError 401 ''Unauthorized - Invalid token'')
             | OtherVerifyError \<Rightarrow> Inl (ApiError 500 ''Token verification failed'')
             | Decoded i iat \<Rightarrow>
                 (case map_option select_default (findById coll i) of
                    None \<Rightarrow> Inl (ApiError 401 ''Unauthorized - Author not found'')
                  | Some author \<Rightarrow>
                      if isDeleted author
                      then Inl (ApiError 401 ''Unauthorized - Account has been deleted'')
                      else if changedPasswordAfter author iat then Inl password_changed
                      else Inr author)))"

section \<open>The gates of login, as an order\<close>

datatype gate = GateExists | GateNotLocked | GatePassword | GateActive | GateVerified

definition password_ok :: "externals \<Rightarrow> account \<Rightarrow> string \<Rightarrow> bool" where
  "password_ok X a pw = (case password a of None \<Rightarrow> False | Some h \<Rightarrow> bcrypt_compare X pw h)"

definition spec_first_failing_gate ::
  "externals \<Rightarrow> int \<Rightarrow> account list \<Rightarrow> string \<Rightarrow> string \<Rightarrow> gate option" where
  \<comment> \<open>the order of the specification: account exists by email, not locked, password
      verifies, \<^verbatim>\<open>isActive\<close>, \<^verbatim>\<open>isVerified\<close>\<close>
  "spec_first_failing_gate X now coll e pw =
     (case find (\<lambda>a. email a = lowercase_trim X e) coll of
        None \<Rightarrow> Some GateExists
      | Some a \<Rightarrow>
          if isAccountLocked now a then Some GateNotLocked
          else if \<not> password_ok X a pw then Some GatePassword
          else if \<not> isActive a then Some GateActive
          else if \<not> isVerified a then Some GateVerified
          else None)"

definition login_first_failing_gate ::
  "externals \<Rightarrow> int \<Rightarrow> account list \<Rightarrow> string \<Rightarrow> string \<Rightarrow> gate option" where
  \<comment> \<open>the order with \<^verbatim>\<open>isActive\<close> folded into the lookup: an active account exists by
      email (lowercased and trimmed), not locked, password verifies, \<^verbatim>\<open>isVerified\<close>\<close>
  "login_first_failing_gate X now coll e pw =
     (case find (\<lambda>a. email a = lowercase_trim X e \<and> isActive a) coll of
        None \<Rightarrow> Some GateExists
      | Some a \<Rightarrow>
          if isAccountLocked now a then Some GateNotLocked
          else if \<not> password_ok X a pw then Some GatePassword
          else if \<not> isVerified a then Some GateVerified
          else None)"

fun gate_reason :: "gate \<Rightarrow> failure" where
  "gate_reason GateExists = invalid_login"
| "gate_reason GateNotLocked = invalid_login"
| "gate_reason GatePassword = invalid_login"
| "gate_reason GateActive = account_inactive"
| "gate_reason GateVerified = account_unverified"

section \<open>Concrete inputs\<close>

definition ascii_lower :: "char \<Rightarrow> char" where
  "ascii_lower c =
     (case map_of (zip ''ABCDEFGHIJKLMNOPQRSTUVWXYZ'' ''abcdefghijklmnopqrstuvwxyz'') c of
        None \<Rightarrow> c
      | Some l \<Rightarrow> l)"

definition ascii_lowercase_trim :: "string \<Rightarrow> string" where
  \<comment> \<open>\<^verbatim>\<open>toLowerCase\<close> and \<^verbatim>\<open>trim\<close> as they act on ASCII letters and spaces\<close>
  "ascii_lowercase_trim s =
     map ascii_lower
       (rev (dropWhile (\<lambda>c. c = CHR '' '') (rev (dropWhile (\<lambda>c. c = CHR '' '') s))))"

definition X0 :: externals where
  "X0 = \<lparr>bcrypt_compare = (\<lambda>p h. h = ''hash:'' @ p),
         lowercase_trim = ascii_lowercase_trim,
         string_to_number = (\<lambda>s. if s = ''5'' then JNum 5 else JNaN),
         cast_date_string = (\<lambda>s. None),
         jwt_sign = (\<lambda>p t. case p of AccessPayload i e r \<Rightarrow> ''access'' | RefreshPayload i \<Rightarrow> ''refresh''),
         jwt_verify = (\<lambda>s. if s = ''access'' then Decoded 1 1000 else JsonWebTokenError)\<rparr>"

definition env_unset :: process_env where
  "env_unset = \<lparr>MAX_LOGIN_ATTEMPTS = None, LOCK_TIME = None\<rparr>"

definition env_five :: process_env where
  "env_five = \<lparr>MAX_LOGIN_ATTEMPTS = Some ''5'', LOCK_TIME = None\<rparr>"

definition now0 :: int where
  "now0 = 1700000000000"

definition alice :: account where
  "alice = \<lparr>doc_id = 1, email = ''alice@example.com'', role = ''author'',
            password = Some ''hash:secret'', passwordChangedAt = Some 2000000,
            loginHistory = [], loginAttempts = Some 0, lockUntil = None,
            isVerified = True, isActive = True, refreshToken = None,
            lastActive = None, isDeleted = False, createdAt = Some 1000000,
            updatedAt = Some 1000000\<rparr>"

definition world_of :: "account \<Rightarrow> world" where
  "world_of a = \<lparr>db = [a], compares = 0\<rparr>"

definition alice_locked :: account where
  "alice_locked = alice\<lparr>lockUntil := Some (now0 + 1000)\<rparr>"

definition alice_inactive :: account where
  "alice_inactive = alice\<lparr>isActive := False\<rparr>"

definition alice_deleted :: account where
  "alice_deleted = alice\<lparr>isDeleted := True\<rparr>"

definition alice_four :: account where
  "alice_four = alice\<lparr>loginAttempts := Some 4\<rparr>"

definition alice_unverified :: account where
  "alice_unverified = alice\<lparr>isVerified := False\<rparr>"

definition adminFindOne0 :: "account list \<Rightarrow> string \<Rightarrow> account option" where
  "adminFindOne0 coll e = find (\<lambda>a. email a = e) coll"

definition gen0 :: "nat \<Rightarrow> world \<Rightarrow> (string \<times> string) \<times> world" where
  "gen0 i w = ((''access'', ''refresh''), w)"

section \<open>Supporting lemmas\<close>

lemma isAccountLocked_select_credentials [simp]:
  "isAccountLocked now (select_credentials s) = isAccountLocked now s"
  by (simp add: isAccountLocked_def select_credentials_def)

lemma select_credentials_fields [simp]:
  "doc_id (select_credentials s) = doc_id s"
  "email (select_credentials s) = email s"
  "role (select_credentials s) = role s"
  "password (select_credentials s) = password s"
  "loginAttempts (select_credentials s) = loginAttempts s"
  "lockUntil (select_credentials s) = lockUntil s"
  "isActive (select_credentials s) = isActive s"
  "isVerified (select_credentials s) = isVerified s"
  "isDeleted (select_credentials s) = isDeleted s"
  "loginHistory (select_credentials s) = loginHistory s"
  "lastActive (select_credentials s) = lastActive s"
  "createdAt (select_credentials s) = createdAt s"
  "updatedAt (select_credentials s) = updatedAt s"
  by (simp_all add: select_credentials_def)

lemma find_distinct_email:
  "distinct (map email coll) \<Longrightarrow> a \<in> set coll \<Longrightarrow>
   find (\<lambda>b. email b = email a \<and> P b) coll = (if P a then Some a else None)"
proof (induction coll)
  case Nil
  then show ?case by simp
next
  case (Cons x xs)
  show ?case
  proof (cases "x = a")
    case True
    from Cons.prems True have "email a \<notin> email ` set xs" by simp
    then have "\<forall>b\<in>set xs. email b \<noteq> email a" by (metis imageI)
    then have "find (\<lambda>b. email b = email a \<and> P b) xs = None"
      by (auto simp: find_None_iff)
    with True show ?thesis by simp
  next
    case False
    with Cons.prems have "a \<in> set xs" "email x \<noteq> email a" by auto
    with Cons show ?thesis by simp
  qed
qed

lemma login_not_found:
  "findOne X (db w) e = None \<Longrightarrow> loginAuthor X env now w e pw dev ip = (Inl invalid_login, w)"
  by (simp add: loginAuthor_def findByCredentials_def)

lemma login_locked:
  "findOne X (db w) e = Some s \<Longrightarrow> isAccountLocked now s \<Longrightarrow>
   loginAuthor X env now w e pw dev ip = (Inl invalid_login, w)"
  by (simp add: loginAuthor_def findByCredentials_def)

lemma truthy_lock_condition: "truthy (lock_condition X env this)"
  by (simp add: lock_condition_def js_or_def)

lemma incrementLoginAttempts_unlocked:
  "\<not> isAccountLocked now this \<Longrightarrow>
   incrementLoginAttempts X env now this coll =
     (case castDate X (lock_value X env now) of
        Inl err \<Rightarrow> Inl err
      | Inr t \<Rightarrow> Inr (update_by_id (doc_id this)
                        (\<lambda>d. d\<lparr>loginAttempts := Some (double_round (attempts_of d + 1)),
                               lockUntil := t, updatedAt := Some now\<rparr>) coll))"
  by (simp add: incrementLoginAttempts_def truthy_lock_condition updateOne_def Let_def
        apply_inc_def apply_set_attempts_def split: sum.splits)

lemma resetLoginAttempts_eq:
  "resetLoginAttempts X now this coll =
     Inr (update_by_id (doc_id this)
            (\<lambda>d. d\<lparr>loginAttempts := Some 0, lockUntil := None, updatedAt := Some now\<rparr>) coll)"
  by (simp add: resetLoginAttempts_def updateOne_def castDate_def apply_inc_def apply_set_attempts_def)

lemma login_wrong_password:
  assumes "findOne X (db w) e = Some s" "\<not> isAccountLocked now s"
    and "password s = Some h" "\<not> bcrypt_compare X pw h"
  shows "loginAuthor X env now w e pw dev ip =
     (case castDate X (lock_value X env now) of
        Inl err \<Rightarrow> (Inl err, w\<lparr>compares := Suc (compares w)\<rparr>)
      | Inr t \<Rightarrow> (Inl invalid_login,
                  \<lparr>db = update_by_id (doc_id s)
                          (\<lambda>d. d\<lparr>loginAttempts := Some (double_round (attempts_of d + 1)),
                                 lockUntil := t, updatedAt := Some now\<rparr>) (db w),
                   compares = Suc (compares w)\<rparr>))"
  using assms
  by (simp add: loginAuthor_def findByCredentials_def comparePassword_def Let_def
        incrementLoginAttempts_unlocked split: sum.splits)

lemma login_no_hash:
  assumes "findOne X (db w) e = Some s" "\<not> isAccountLocked now s" "password s = None"
  shows "loginAuthor X env now w e pw dev ip = (Inl HashError, w\<lparr>compares := Suc (compares w)\<rparr>)"
  using assms
  by (simp add: loginAuthor_def findByCredentials_def comparePassword_def Let_def)

lemma findOne_active:
  "findOne X coll e = Some s \<Longrightarrow> isActive s \<and> email s = lowercase_trim X e \<and> s \<in> set coll"
  by (auto simp: findOne_def find_Some_iff)

lemma login_unverified:
  assumes "findOne X (db w) e = Some s" "\<not> isAccountLocked now s"
    and "password s = Some h" "bcrypt_compare X pw h" "\<not> isVerified s"
  shows "loginAuthor X env now w e pw dev ip =
     (Inl account_unverified,
      \<lparr>db = update_by_id (doc_id s) (\<lambda>d. d\<lparr>loginAttempts := Some 0, lockUntil := None, updatedAt := Some now\<rparr>) (db w),
       compares = Suc (compares w)\<rparr>)"
  using assms findOne_active[OF assms(1)]
  by (simp add: loginAuthor_def findByCredentials_def comparePassword_def Let_def
        resetLoginAttempts_eq)

lemma update_by_id_comp:
  "(\<And>d. doc_id (g d) = doc_id d) \<Longrightarrow>
   update_by_id i f (update_by_id i g coll) = update_by_id i (\<lambda>d. f (g d)) coll"
  by (induction coll) (auto simp: update_by_id_def)

lemma login_success:
  assumes "findOne X (db w) e = Some s" "\<not> isAccountLocked now s"
    and "password s = Some h" "bcrypt_compare X pw h" "isVerified s"
  shows "\<exists>res. loginAuthor X env now w e pw dev ip =
     (Inr res,
      \<lparr>db = update_by_id (doc_id s)
              (\<lambda>d. d\<lparr>loginAttempts := Some 0, lockUntil := None,
                     loginHistory := loginHistory d @ [\<lparr>device = dev, ipAddress = ip, timestamp = now\<rparr>],
                     lastActive := Some now,
                     refreshToken := Some (generateRefreshToken X now s),
                     updatedAt := Some now\<rparr>) (db w),
       compares = Suc (compares w)\<rparr>) \<and> view_id (author_view res) = doc_id s
       \<and> accessToken res = generateAccessToken X now s
       \<and> refreshToken_out res = generateRefreshToken X now s"
  using assms findOne_active[OF assms(1)]
  by (simp add: loginAuthor_def findByCredentials_def comparePassword_def Let_def
        resetLoginAttempts_eq recordLogin_def update_by_id_comp
        generateRefreshToken_def generateAccessToken_def)

lemma update_by_id_mem: "s \<in> set coll \<Longrightarrow> f s \<in> set (update_by_id (doc_id s) f coll)"
  by (auto simp: update_by_id_def image_iff intro!: bexI [of _ s])

lemma castDate_Inl: "castDate X v = Inl err \<Longrightarrow> err = CastError"
  by (auto simp: castDate_def split: jsval.splits if_splits option.splits)

lemma lock_value_unset: "LOCK_TIME env = None \<Longrightarrow> lock_value X env now = JNum 7200000"
  by (simp add: lock_value_def js_plus_def js_or_def)

lemma string_of_int_nonempty: "string_of_int i \<noteq> []"
  by (simp add: string_of_int_def string_of_nat.simps [of "nat i"])

lemma lock_value_set:
  "LOCK_TIME env = Some s \<Longrightarrow> lock_value X env now = JStr (string_of_int now @ s)"
  by (simp add: lock_value_def js_plus_def js_or_def string_of_int_nonempty)

lemma verifyJWT_never_password_changed: "verifyJWT X coll c h \<noteq> Inl password_changed"
  by (auto simp: verifyJWT_def password_changed_def changedPasswordAfter_def select_default_def
           split: option.splits verify_outcome.splits)

lemma castDate_default: "castDate X (JNum 7200000) = Inr (Some 7200000)"
  by (simp add: castDate_def max_date_def)

lemma bit_length_le: "n < 2 ^ k \<Longrightarrow> bit_length n \<le> k"
proof (induction k arbitrary: n)
  case 0
  then have "n = 0" by simp
  then show ?case by (simp add: bit_length.simps [of 0])
next
  case (Suc k)
  then have "n div 2 < 2 ^ k" by simp
  then have "bit_length (n div 2) \<le> k" by (rule Suc.IH)
  then show ?case by (simp add: bit_length.simps [of n])
qed

lemma double_round_exact:
  assumes "\<bar>m\<bar> < 2 ^ 53"
  shows "double_round m = m"
proof -
  from assms have "nat \<bar>m\<bar> < 2 ^ 53" by simp
  then have "bit_length (nat \<bar>m\<bar>) \<le> 53" by (rule bit_length_le)
  then have "double_round m = sgn m * int (nat \<bar>m\<bar>)"
    by (simp add: double_round_def Let_def)
  then show ?thesis by (simp add: mult_sgn_abs)
qed

lemma bit_length_eq: "2 ^ k \<le> n \<Longrightarrow> n < 2 ^ Suc k \<Longrightarrow> bit_length n = Suc k"
proof (induction k arbitrary: n)
  case 0
  then have "n = 1" by simp
  then show ?case by (simp add: bit_length.simps [of "Suc 0"] bit_length.simps [of 0])
next
  case (Suc k)
  then have "2 ^ k \<le> n div 2" "n div 2 < 2 ^ Suc k" by simp_all
  then have "bit_length (n div 2) = Suc k" by (rule Suc.IH)
  moreover from Suc.prems have "n \<noteq> 0" by auto
  ultimately show ?case by (simp add: bit_length.simps [of n])
qed

lemma double_round_at_limit: "double_round 9007199254740993 = 9007199254740992"
proof -
  have "bit_length 9007199254740993 = Suc 53"
    by (rule bit_length_eq) simp_all
  then show ?thesis
    by (simp add: double_round_def Let_def)
qed

lemma update_by_id_cong:
  "(\<And>d. d \<in> set coll \<Longrightarrow> doc_id d = i \<Longrightarrow> f d = g d) \<Longrightarrow>
   update_by_id i f coll = update_by_id i g coll"
  by (simp add: update_by_id_def)

lemma store_accepts_default: "LOCK_TIME env = None \<Longrightarrow> store_accepts_lock X env now"
  by (simp add: store_accepts_lock_def lock_value_unset castDate_default)

lemma login_Inr_D:
  assumes "fst (loginAuthor X env now w e pw dev ip) = Inr res"
  shows "\<exists>s h. findOne X (db w) e = Some s \<and> \<not> isAccountLocked now s \<and> password s = Some h
            \<and> bcrypt_compare X pw h \<and> isVerified s"
proof (cases "findOne X (db w) e")
  case None
  with assms show ?thesis by (simp add: login_not_found)
next
  case (Some s)
  show ?thesis
  proof (cases "isAccountLocked now s")
    case True
    with Some assms show ?thesis by (simp add: login_locked)
  next
    case unlocked: False
    show ?thesis
    proof (cases "password s")
      case None
      with Some unlocked assms show ?thesis by (simp add: login_no_hash)
    next
      case (Some h)
      note pw = this
      show ?thesis
      proof (cases "bcrypt_compare X pw h")
        case False
        with \<open>findOne X (db w) e = Some s\<close> unlocked pw assms show ?thesis
          by (simp add: login_wrong_password split: sum.splits)
      next
        case True
        with \<open>findOne X (db w) e = Some s\<close> unlocked pw assms show ?thesis
          by (cases "isVerified s") (simp_all add: login_unverified)
      qed
    qed
  qed
qed

lemma alice_fields:
  "email alice = ''alice@example.com''" "doc_id alice = 1" "isActive alice" "isVerified alice"
  "password alice = Some ''hash:secret''" "lockUntil alice = None" "loginAttempts alice = Some 0"
  "isDeleted alice = False" "passwordChangedAt alice = Some 2000000"
  "updatedAt alice = Some 1000000"
  by (simp_all add: alice_def)

lemma adminLogin_invalid_login:
  "fst (adminLogin X adminFindOne gen w e pw) = Inl invalid_login \<Longrightarrow>
   db (snd (adminLogin X adminFindOne gen w e pw)) = db w"
  by (auto simp: adminLogin_def Let_def invalid_login_def split: option.splits if_splits prod.splits)

lemma gate_cases [case_names absent locked no_hash mismatch unverified pass]:
  obtains
    (absent) "findOne X (db w) e = None"
      "login_first_failing_gate X now (db w) e pw = Some GateExists"
  | (locked) s where "findOne X (db w) e = Some s" "isAccountLocked now s"
      "login_first_failing_gate X now (db w) e pw = Some GateNotLocked"
  | (no_hash) s where "findOne X (db w) e = Some s" "\<not> isAccountLocked now s" "password s = None"
      "login_first_failing_gate X now (db w) e pw = Some GatePassword"
  | (mismatch) s h where "findOne X (db w) e = Some s" "\<not> isAccountLocked now s"
      "password s = Some h" "\<not> bcrypt_compare X pw h"
      "login_first_failing_gate X now (db w) e pw = Some GatePassword"
  | (unverified) s h where "findOne X (db w) e = Some s" "\<not> isAccountLocked now s"
      "password s = Some h" "bcrypt_compare X pw h" "\<not> isVerified s"
      "login_first_failing_gate X now (db w) e pw = Some GateVerified"
  | (pass) s h where "findOne X (db w) e = Some s" "\<not> isAccountLocked now s"
      "password s = Some h" "bcrypt_compare X pw h" "isVerified s"
      "login_first_failing_gate X now (db w) e pw = None"
proof (cases "findOne X (db w) e")
  case None
  then have "login_first_failing_gate X now (db w) e pw = Some GateExists"
    by (simp add: login_first_failing_gate_def findOne_def)
  with None show ?thesis by (rule absent)
next
  case (Some s)
  then have g: "find (\<lambda>a. email a = lowercase_trim X e \<and> isActive a) (db w) = Some s"
    by (simp add: findOne_def)
  show ?thesis
  proof (cases "isAccountLocked now s")
    case True
    with g have "login_first_failing_gate X now (db w) e pw = Some GateNotLocked"
      by (simp add: login_first_failing_gate_def)
    with Some True show ?thesis by (rule locked)
  next
    case False
    note unlocked = this
    show ?thesis
    proof (cases "password s")
      case None
      with g unlocked
      have "login_first_failing_gate X now (db w) e pw = Some GatePassword"
        by (simp add: login_first_failing_gate_def password_ok_def)
      with \<open>findOne X (db w) e = Some s\<close> unlocked None show ?thesis
        by (rule no_hash)
    next
      case (Some h)
      note hash = this
      show ?thesis
      proof (cases "bcrypt_compare X pw h")
        case False
        with g unlocked hash
        have "login_first_failing_gate X now (db w) e pw = Some GatePassword"
          by (simp add: login_first_failing_gate_def password_ok_def)
        with \<open>findOne X (db w) e = Some s\<close> unlocked hash False show ?thesis
          by (rule mismatch)
      next
        case True
        show ?thesis
        proof (cases "isVerified s")
          case False
          with g unlocked hash True
          have "login_first_failing_gate X now (db w) e pw = Some GateVerified"
            by (simp add: login_first_failing_gate_def password_ok_def)
          with \<open>findOne X (db w) e = Some s\<close> unlocked hash True False show ?thesis
            by (rule unverified)
        next
          case verified: True
          with g unlocked hash True
          have "login_first_failing_gate X now (db w) e pw = None"
            by (simp add: login_first_failing_gate_def password_ok_def)
          with \<open>findOne X (db w) e = Some s\<close> unlocked hash True verified show ?thesis
            by (rule pass)
        qed
      qed
    qed
  qed
qed

lemma lowercase_trim_example:
  "lowercase_trim X0 '' ALICE@Example.COM '' = ''alice@example.com''"
  by code_simp

lemma login_email_is_normalised:
  "isl (fst (loginAuthor X0 env_unset now0 (world_of alice) '' ALICE@Example.COM '' ''secret'' ''d'' ''i''))
     = False"
  by code_simp

section \<open>The claims\<close>

text \<open>
  The statements are about \<^verbatim>\<open>loginAuthor\<close>; \<open>loginUser\<close> is the same function over the
  user collection.
\<close>

text \<open>
  Claim C1, as amended. For an author or user account, a failed login attempt (an
  active account is found by the email, it is not locked, and the password does not
  match) that the store accepts adds exactly one to the stored \<^verbatim>\<open>loginAttempts\<close>
  (a counter below \<open>2 ^ 53 - 1\<close>, where doubles count exactly), stamps \<^verbatim>\<open>updatedAt\<close>,
  and changes nothing else: no other document, and of this one no other field,
  its \<^verbatim>\<open>lockUntil\<close> left aside. With \<^verbatim>\<open>LOCK_TIME\<close> unset the store always accepts the
  update. \<^verbatim>\<open>adminLogin\<close> keeps no counter: an admin login that fails with
  \<^verbatim>\<open>Invalid email or password\<close> writes nothing.
\<close>

theorem failed_attempt_increments_counter:
  "(findOne X (db w) e = Some s \<and> \<not> isAccountLocked now s
      \<and> password s = Some h \<and> \<not> bcrypt_compare X pw h
      \<and> (\<forall>d\<in>set (db w). doc_id d = doc_id s \<longrightarrow> \<bar>attempts_of d\<bar> + 1 < 2 ^ 53)
    \<longrightarrow> (LOCK_TIME env = None \<longrightarrow> fst (loginAuthor X env now w e pw dev ip) = Inl invalid_login)
      \<and> (fst (loginAuthor X env now w e pw dev ip) = Inl invalid_login \<longrightarrow>
           (\<exists>t. db (snd (loginAuthor X env now w e pw dev ip))
                = update_by_id (doc_id s)
                    (\<lambda>d. d\<lparr>loginAttempts := Some (attempts_of d + 1), lockUntil := t,
                           updatedAt := Some now\<rparr>) (db w))))
   \<and> (fst (adminLogin X adminFindOne gen wa ea pwa) = Inl invalid_login
        \<longrightarrow> db (snd (adminLogin X adminFindOne gen wa ea pwa)) = db wa)"
proof (intro conjI impI)
  assume A: "findOne X (db w) e = Some s \<and> \<not> isAccountLocked now s
      \<and> password s = Some h \<and> \<not> bcrypt_compare X pw h
      \<and> (\<forall>d\<in>set (db w). doc_id d = doc_id s \<longrightarrow> \<bar>attempts_of d\<bar> + 1 < 2 ^ 53)"
  then have s: "findOne X (db w) e = Some s" "\<not> isAccountLocked now s"
    "password s = Some h" "\<not> bcrypt_compare X pw h"
    by simp_all
  note L = login_wrong_password [OF s, of env dev ip]
  {
    assume "LOCK_TIME env = None"
    then show "fst (loginAuthor X env now w e pw dev ip) = Inl invalid_login"
      using L by (simp add: lock_value_unset castDate_default)
  next
    assume ok: "fst (loginAuthor X env now w e pw dev ip) = Inl invalid_login"
    show "\<exists>t. db (snd (loginAuthor X env now w e pw dev ip))
                = update_by_id (doc_id s)
                    (\<lambda>d. d\<lparr>loginAttempts := Some (attempts_of d + 1), lockUntil := t,
                           updatedAt := Some now\<rparr>) (db w)"
    proof (cases "castDate X (lock_value X env now)")
      case (Inl err)
      then have "err = CastError" by (rule castDate_Inl)
      with Inl ok L show ?thesis by (simp add: invalid_login_def)
    next
      case (Inr t)
      have exact: "\<And>d. d \<in> set (db w) \<Longrightarrow> doc_id d = doc_id s \<Longrightarrow>
                    double_round (attempts_of d + 1) = attempts_of d + 1"
      proof -
        fix d assume "d \<in> set (db w)" "doc_id d = doc_id s"
        with A have "\<bar>attempts_of d\<bar> + 1 < 2 ^ 53" by blast
        then have "\<bar>attempts_of d + 1\<bar> < 2 ^ 53" by linarith
        then show "double_round (attempts_of d + 1) = attempts_of d + 1"
          by (rule double_round_exact)
      qed
      have "update_by_id (doc_id s)
              (\<lambda>d. d\<lparr>loginAttempts := Some (double_round (attempts_of d + 1)),
                     lockUntil := t, updatedAt := Some now\<rparr>) (db w)
            = update_by_id (doc_id s)
              (\<lambda>d. d\<lparr>loginAttempts := Some (attempts_of d + 1), lockUntil := t,
                     updatedAt := Some now\<rparr>) (db w)"
        by (rule update_by_id_cong) (simp add: exact)
      with Inr L show ?thesis by auto
    qed
  }
next
  assume "fst (adminLogin X adminFindOne gen wa ea pwa) = Inl invalid_login"
  then show "db (snd (adminLogin X adminFindOne gen wa ea pwa)) = db wa"
    by (rule adminLogin_invalid_login)
qed

text \<open>
  The amended C1 at a concrete input: one wrong password for an unlocked author,
  the email typed with capitals, takes the counter from 0 to 1; the same wrong
  password given to \<^verbatim>\<open>adminLogin\<close> leaves the document as it was.
\<close>

theorem failed_attempt_increments_counter_witness:
  "findOne X0 (db (world_of alice)) ''Alice@Example.com'' = Some alice
   \<and> \<not> isAccountLocked now0 alice \<and> password alice = Some ''hash:secret''
   \<and> \<not> bcrypt_compare X0 ''wrong'' ''hash:secret''
   \<and> attempts_of alice = 0
   \<and> fst (loginAuthor X0 env_unset now0 (world_of alice) ''Alice@Example.com'' ''wrong'' ''d'' ''i'')
       = Inl invalid_login
   \<and> map loginAttempts (db (snd (loginAuthor X0 env_unset now0 (world_of alice)
                                    ''Alice@Example.com'' ''wrong'' ''d'' ''i''))) = [Some 1]
   \<and> fst (adminLogin X0 adminFindOne0 gen0 (world_of alice) ''alice@example.com'' ''wrong'')
       = Inl invalid_login
   \<and> db (snd (adminLogin X0 adminFindOne0 gen0 (world_of alice) ''alice@example.com'' ''wrong'')) = [alice]"
proof -
  have f: "findOne X0 (db (world_of alice)) ''Alice@Example.com'' = Some alice"
    by code_simp
  have u: "\<not> isAccountLocked now0 alice" by (simp add: isAccountLocked_def alice_def)
  have p: "password alice = Some ''hash:secret''" by (simp add: alice_def)
  have c: "\<not> bcrypt_compare X0 ''wrong'' ''hash:secret''" by (simp add: X0_def)
  have z: "attempts_of alice = 0" by (simp add: attempts_of_def alice_def)
  have b: "\<forall>d\<in>set (db (world_of alice)). doc_id d = doc_id alice \<longrightarrow> \<bar>attempts_of d\<bar> + 1 < 2 ^ 53"
    by (simp add: world_of_def z)
  have e: "LOCK_TIME env_unset = None" by (simp add: env_unset_def)
  have a: "fst (adminLogin X0 adminFindOne0 gen0 (world_of alice) ''alice@example.com'' ''wrong'')
       = Inl invalid_login"
    by code_simp
  note T = failed_attempt_increments_counter
    [of X0 "world_of alice" "''Alice@Example.com''" alice now0 "''hash:secret''" "''wrong''"
        env_unset "''d''" "''i''" adminFindOne0 gen0 "world_of alice" "''alice@example.com''" "''wrong''"]
  from T f u p c b e
  have r: "fst (loginAuthor X0 env_unset now0 (world_of alice) ''Alice@Example.com'' ''wrong'' ''d'' ''i'')
       = Inl invalid_login" by blast
  with T f u p c b obtain t where
    "db (snd (loginAuthor X0 env_unset now0 (world_of alice) ''Alice@Example.com'' ''wrong'' ''d'' ''i''))
       = update_by_id (doc_id alice)
           (\<lambda>d. d\<lparr>loginAttempts := Some (attempts_of d + 1), lockUntil := t,
                  updatedAt := Some now0\<rparr>) (db (world_of alice))" by blast
  then have m: "map loginAttempts (db (snd (loginAuthor X0 env_unset now0 (world_of alice)
                                    ''Alice@Example.com'' ''wrong'' ''d'' ''i''))) = [Some 1]"
    by (simp add: update_by_id_def world_of_def z)
  from T a have d: "db (snd (adminLogin X0 adminFindOne0 gen0 (world_of alice) ''alice@example.com'' ''wrong''))
       = db (world_of alice)"
    by blast
  from f u p c z r m a d show ?thesis by (simp add: world_of_def)
qed

text \<open>
  C1 as stated fails. With \<^verbatim>\<open>MAX_LOGIN_ATTEMPTS = "5"\<close> and a counter of 0, one
  failed attempt (0 + 1 is below 5, so the comparison is false) still writes
  \<^verbatim>\<open>lockUntil\<close>, because the condition is \<^verbatim>\<open>(attempts + 1 >= max) || 5\<close>; and a
  failed \<^verbatim>\<open>adminLogin\<close> does not increment anything.
\<close>

theorem lock_written_below_threshold_and_admin_uncounted:
  "loginAttempts alice = Some 0 \<and> lockUntil alice = None
   \<and> js_ge X0 (JNum (0 + 1)) (env_value (MAX_LOGIN_ATTEMPTS env_five)) = False
   \<and> loginAuthor X0 env_five now0 (world_of alice) ''alice@example.com'' ''wrong'' ''d'' ''i''
       = (Inl invalid_login,
          \<lparr>db = [alice\<lparr>loginAttempts := Some 1, lockUntil := Some 7200000, updatedAt := Some now0\<rparr>],
           compares = 1\<rparr>)
   \<and> adminLogin X0 adminFindOne0 gen0 (world_of alice) ''alice@example.com'' ''wrong''
       = (Inl invalid_login, \<lparr>db = [alice], compares = 1\<rparr>)"
  by code_simp

text \<open>
  Claim C2 at a failing input. With \<^verbatim>\<open>LOCK_TIME\<close> unset, the value written is
  \<^verbatim>\<open>(Date.now() + undefined) || 7200000\<close>, that is 7200000: the date two hours
  after the epoch, not two hours after now. It lies in the past, so the account is
  not locked by it.
\<close>

theorem default_lock_is_in_the_past:
  "LOCK_TIME env_unset = None \<and> loginAttempts alice_four = Some 4
   \<and> incrementLoginAttempts X0 env_unset now0 alice_four [alice_four]
       = Inr [alice_four\<lparr>loginAttempts := Some 5, lockUntil := Some 7200000, updatedAt := Some now0\<rparr>]
   \<and> (7200000 :: int) < now0 \<and> (7200000 :: int) \<noteq> now0 + 7200000
   \<and> isAccountLocked now0 (alice_four\<lparr>loginAttempts := Some 5, lockUntil := Some 7200000\<rparr>) = False"
  by code_simp

text \<open>
  Claim C3, as amended. An inactive or unverified account never receives a token
  pair from login, whatever the password and however the email is typed (\<open>e\<close> is
  any text that lowercases and trims to the stored email); emails are unique in
  the collection, as the schema declares. (Login has no gate on \<^verbatim>\<open>isDeleted\<close>.)
\<close>

theorem inactive_or_unverified_never_gets_tokens:
  assumes "distinct (map email (db w))" and "a \<in> set (db w)"
    and "lowercase_trim X e = email a"
    and "\<not> isActive a \<or> \<not> isVerified a"
  shows "isl (fst (loginAuthor X env now w e pw dev ip))"
proof (rule ccontr)
  assume "\<not> isl (fst (loginAuthor X env now w e pw dev ip))"
  then obtain res where "fst (loginAuthor X env now w e pw dev ip) = Inr res"
    by (cases "fst (loginAuthor X env now w e pw dev ip)") auto
  from login_Inr_D [OF this] obtain s where
    s: "findOne X (db w) e = Some s" "isVerified s" by blast
  have "findOne X (db w) e = (if isActive a then Some a else None)"
    unfolding findOne_def assms(3) using assms(1,2) by (rule find_distinct_email)
  with s assms(4) show False by (auto split: if_splits)
qed

text \<open>
  The amended C3 at a concrete input: an inactive account with the correct
  password.
\<close>

theorem inactive_or_unverified_never_gets_tokens_witness:
  "distinct (map email (db (world_of alice_inactive)))
   \<and> alice_inactive \<in> set (db (world_of alice_inactive))
   \<and> lowercase_trim X0 ''alice@example.com'' = email alice_inactive
   \<and> \<not> isActive alice_inactive
   \<and> bcrypt_compare X0 ''secret'' ''hash:secret''
   \<and> isl (fst (loginAuthor X0 env_unset now0 (world_of alice_inactive) ''alice@example.com'' ''secret'' ''d'' ''i''))"
proof -
  have n: "lowercase_trim X0 ''alice@example.com'' = email alice_inactive" by code_simp
  from inactive_or_unverified_never_gets_tokens
          [of "world_of alice_inactive" alice_inactive X0 "''alice@example.com''" env_unset now0
              "''secret''" "''d''" "''i''"] n
  show ?thesis
    by (simp add: world_of_def alice_inactive_def alice_fields X0_def)
qed

text \<open>
  C3 as stated fails for a soft-deleted account: deleted, but active and verified,
  it logs in with the correct password and receives both tokens.
\<close>

theorem deleted_account_gets_tokens:
  "isDeleted alice_deleted
   \<and> fst (loginAuthor X0 env_unset now0 (world_of alice_deleted) ''alice@example.com'' ''secret'' ''d'' ''i'')
     = Inr \<lparr>author_view =
              \<lparr>view_id = 1, view_email = ''alice@example.com'', view_role = ''author'',
               view_isVerified = True, view_isActive = True, view_lastActive = Some now0\<rparr>,
            accessToken = ''access'', refreshToken_out = ''refresh''\<rparr>"
  by code_simp

text \<open>
  Claim C4, as amended. Each gate failure of login maps to the reason of the first
  failing gate, and there are two reasons only. No active account with that email,
  a locked account, and a wrong password whose counter update the store accepts
  (always so with \<^verbatim>\<open>LOCK_TIME\<close> unset; stored accounts have a password hash) all give
  \<^verbatim>\<open>401 Invalid email or password\<close>; an unverified account gives
  \<^verbatim>\<open>403 Please verify your account first\<close>. Conversely every \<^verbatim>\<open>ApiError\<close> of login is
  the reason of its first failing gate, and \<^verbatim>\<open>Account is inactive\<close> is never given.
\<close>

theorem login_error_reasons:
  "(\<forall>g. login_first_failing_gate X now (db w) e pw = Some g
         \<and> (g = GatePassword \<longrightarrow>
               store_accepts_lock X env now \<and> (\<forall>a\<in>set (db w). password a \<noteq> None))
       \<longrightarrow> g \<noteq> GateActive \<and> fst (loginAuthor X env now w e pw dev ip) = Inl (gate_reason g))
   \<and> (LOCK_TIME env = None \<longrightarrow> store_accepts_lock X env now)
   \<and> (\<forall>c m. fst (loginAuthor X env now w e pw dev ip) = Inl (ApiError c m)
         \<longrightarrow> (\<exists>g. login_first_failing_gate X now (db w) e pw = Some g \<and> gate_reason g = ApiError c m)
            \<and> (ApiError c m = invalid_login \<or> ApiError c m = account_unverified))
   \<and> invalid_login \<noteq> account_unverified"
proof (intro conjI allI impI)
  fix g
  assume G: "login_first_failing_gate X now (db w) e pw = Some g
         \<and> (g = GatePassword \<longrightarrow>
               store_accepts_lock X env now \<and> (\<forall>a\<in>set (db w). password a \<noteq> None))"
  show "g \<noteq> GateActive"
    using G by (cases rule: gate_cases [of X w e now pw]) auto
  show "fst (loginAuthor X env now w e pw dev ip) = Inl (gate_reason g)"
  proof (cases rule: gate_cases [of X w e now pw])
    case absent
    with G show ?thesis by (simp add: login_not_found)
  next
    case (locked s)
    with G show ?thesis by (simp add: login_locked)
  next
    case (no_hash s)
    from findOne_active [OF no_hash(1)] have "s \<in> set (db w)" by simp
    with G no_hash show ?thesis by auto
  next
    case (mismatch s h)
    with G have "store_accepts_lock X env now" by simp
    then obtain t where "castDate X (lock_value X env now) = Inr t"
      by (cases "castDate X (lock_value X env now)") (simp_all add: store_accepts_lock_def)
    with G mismatch show ?thesis by (simp add: login_wrong_password)
  next
    case (unverified s h)
    with G show ?thesis by (simp add: login_unverified)
  next
    case (pass s h)
    with G show ?thesis by simp
  qed
next
  assume "LOCK_TIME env = None"
  then show "store_accepts_lock X env now" by (rule store_accepts_default)
next
  fix c m
  assume E: "fst (loginAuthor X env now w e pw dev ip) = Inl (ApiError c m)"
  have "(\<exists>g. login_first_failing_gate X now (db w) e pw = Some g \<and> gate_reason g = ApiError c m)
        \<and> (ApiError c m = invalid_login \<or> ApiError c m = account_unverified)"
  proof (cases rule: gate_cases [of X w e now pw])
    case absent
    with E show ?thesis by (simp add: login_not_found)
  next
    case (locked s)
    with E show ?thesis by (simp add: login_locked)
  next
    case (no_hash s)
    with E show ?thesis by (simp add: login_no_hash)
  next
    case (mismatch s h)
    show ?thesis
    proof (cases "castDate X (lock_value X env now)")
      case (Inl err)
      then have "err = CastError" by (rule castDate_Inl)
      with Inl mismatch E show ?thesis by (simp add: login_wrong_password)
    next
      case (Inr t)
      with mismatch E show ?thesis by (simp add: login_wrong_password)
    qed
  next
    case (unverified s h)
    with E show ?thesis by (simp add: login_unverified)
  next
    case (pass s h)
    from login_success [OF pass(1-5), of env dev ip] E show ?thesis by auto
  qed
  then show "\<exists>g. login_first_failing_gate X now (db w) e pw = Some g \<and> gate_reason g = ApiError c m"
    and "ApiError c m = invalid_login \<or> ApiError c m = account_unverified"
    by simp_all
next
  show "invalid_login \<noteq> account_unverified"
    by (simp add: invalid_login_def account_unverified_def)
qed

text \<open>
  The amended C4 at concrete inputs, one for each gate: an unknown email, a
  locked account with the correct password, a wrong password, and an unverified
  account with the correct password.
\<close>

theorem login_error_reasons_witness:
  "login_first_failing_gate X0 now0 (db (world_of alice)) ''nobody@example.com'' ''secret'' = Some GateExists
   \<and> fst (loginAuthor X0 env_unset now0 (world_of alice) ''nobody@example.com'' ''secret'' ''d'' ''i'')
       = Inl invalid_login
   \<and> login_first_failing_gate X0 now0 (db (world_of alice_locked)) ''alice@example.com'' ''secret''
       = Some GateNotLocked
   \<and> fst (loginAuthor X0 env_unset now0 (world_of alice_locked) ''alice@example.com'' ''secret'' ''d'' ''i'')
       = Inl invalid_login
   \<and> login_first_failing_gate X0 now0 (db (world_of alice)) ''alice@example.com'' ''wrong''
       = Some GatePassword
   \<and> LOCK_TIME env_unset = None
   \<and> fst (loginAuthor X0 env_unset now0 (world_of alice) ''alice@example.com'' ''wrong'' ''d'' ''i'')
       = Inl invalid_login
   \<and> login_first_failing_gate X0 now0 (db (world_of alice_unverified)) ''alice@example.com'' ''secret''
       = Some GateVerified
   \<and> fst (loginAuthor X0 env_unset now0 (world_of alice_unverified) ''alice@example.com'' ''secret'' ''d'' ''i'')
       = Inl account_unverified"
proof -
  have g1: "login_first_failing_gate X0 now0 (db (world_of alice)) ''nobody@example.com'' ''secret''
              = Some GateExists"
    by code_simp
  have g2: "login_first_failing_gate X0 now0 (db (world_of alice_locked)) ''alice@example.com'' ''secret''
              = Some GateNotLocked"
    by code_simp
  have g3: "login_first_failing_gate X0 now0 (db (world_of alice)) ''alice@example.com'' ''wrong''
              = Some GatePassword"
    by code_simp
  have g4: "login_first_failing_gate X0 now0 (db (world_of alice_unverified)) ''alice@example.com'' ''secret''
              = Some GateVerified"
    by code_simp
  have e: "LOCK_TIME env_unset = None" by (simp add: env_unset_def)
  have p: "\<forall>a\<in>set (db (world_of alice)). password a \<noteq> None"
    by (simp add: world_of_def alice_def)
  note T1 = login_error_reasons
    [of X0 now0 "world_of alice" "''nobody@example.com''" "''secret''" env_unset "''d''" "''i''"]
  note T2 = login_error_reasons
    [of X0 now0 "world_of alice_locked" "''alice@example.com''" "''secret''" env_unset "''d''" "''i''"]
  note T3 = login_error_reasons
    [of X0 now0 "world_of alice" "''alice@example.com''" "''wrong''" env_unset "''d''" "''i''"]
  note T4 = login_error_reasons
    [of X0 now0 "world_of alice_unverified" "''alice@example.com''" "''secret''" env_unset "''d''" "''i''"]
  from T1 g1 have r1: "fst (loginAuthor X0 env_unset now0 (world_of alice) ''nobody@example.com'' ''secret'' ''d'' ''i'')
       = Inl (gate_reason GateExists)" by blast
  from T2 g2 have r2: "fst (loginAuthor X0 env_unset now0 (world_of alice_locked) ''alice@example.com'' ''secret'' ''d'' ''i'')
       = Inl (gate_reason GateNotLocked)" by blast
  from T3 e have "store_accepts_lock X0 env_unset now0" by blast
  with T3 g3 p have r3: "fst (loginAuthor X0 env_unset now0 (world_of alice) ''alice@example.com'' ''wrong'' ''d'' ''i'')
       = Inl (gate_reason GatePassword)" by blast
  from T4 g4 have r4: "fst (loginAuthor X0 env_unset now0 (world_of alice_unverified) ''alice@example.com'' ''secret'' ''d'' ''i'')
       = Inl (gate_reason GateVerified)" by blast
  from g1 g2 g3 g4 e r1 r2 r3 r4 show ?thesis by simp
qed

text \<open>
  C4 as stated fails: a locked account, a wrong password and an unknown email are
  three different gate failures, and all three come back from
  \<^verbatim>\<open>findByCredentials\<close> as \<^verbatim>\<open>null\<close> and from login as the same error.
\<close>

theorem locked_and_wrong_password_same_reason:
  "spec_first_failing_gate X0 now0 [alice_locked] ''alice@example.com'' ''secret'' = Some GateNotLocked
   \<and> spec_first_failing_gate X0 now0 [alice] ''alice@example.com'' ''wrong'' = Some GatePassword
   \<and> spec_first_failing_gate X0 now0 [alice] ''nobody@example.com'' ''secret'' = Some GateExists
   \<and> fst (findByCredentials X0 env_unset now0 (world_of alice_locked) ''alice@example.com'' ''secret'') = Inr None
   \<and> fst (findByCredentials X0 env_unset now0 (world_of alice) ''alice@example.com'' ''wrong'') = Inr None
   \<and> fst (findByCredentials X0 env_unset now0 (world_of alice) ''nobody@example.com'' ''secret'') = Inr None
   \<and> fst (loginAuthor X0 env_unset now0 (world_of alice_locked) ''alice@example.com'' ''secret'' ''d'' ''i'')
       = Inl invalid_login
   \<and> fst (loginAuthor X0 env_unset now0 (world_of alice) ''alice@example.com'' ''wrong'' ''d'' ''i'')
       = Inl invalid_login
   \<and> fst (loginAuthor X0 env_unset now0 (world_of alice) ''nobody@example.com'' ''secret'' ''d'' ''i'')
       = Inl invalid_login"
  by code_simp

text \<open>
  Claim C5, as amended. Login evaluates its gates in this order: an account with
  this email (lowercased and trimmed, as the schema does to the filter) and
  \<^verbatim>\<open>isActive = true\<close> exists (one query), it is not locked, the password verifies,
  it is verified. The first failing gate decides the outcome: a failure of the
  first two leaves the state as it was and never invokes the hasher; from the
  password gate on the hasher has been invoked exactly once. The later test of
  \<^verbatim>\<open>isActive\<close> never fails.
\<close>

theorem login_gate_order:
  "(case login_first_failing_gate X now (db w) e pw of
      Some GateExists \<Rightarrow> loginAuthor X env now w e pw dev ip = (Inl invalid_login, w)
    | Some GateNotLocked \<Rightarrow> loginAuthor X env now w e pw dev ip = (Inl invalid_login, w)
    | Some GatePassword \<Rightarrow>
        fst (loginAuthor X env now w e pw dev ip) \<in> {Inl invalid_login, Inl CastError, Inl HashError}
        \<and> compares (snd (loginAuthor X env now w e pw dev ip)) = Suc (compares w)
    | Some GateActive \<Rightarrow> False
    | Some GateVerified \<Rightarrow>
        fst (loginAuthor X env now w e pw dev ip) = Inl account_unverified
        \<and> compares (snd (loginAuthor X env now w e pw dev ip)) = Suc (compares w)
    | None \<Rightarrow>
        \<not> isl (fst (loginAuthor X env now w e pw dev ip))
        \<and> compares (snd (loginAuthor X env now w e pw dev ip)) = Suc (compares w))"
proof (cases rule: gate_cases [of X w e now pw])
  case absent
  then show ?thesis by (simp add: login_not_found)
next
  case (locked s)
  then show ?thesis by (simp add: login_locked)
next
  case (no_hash s)
  then show ?thesis by (simp add: login_no_hash)
next
  case (mismatch s h)
  show ?thesis
  proof (cases "castDate X (lock_value X env now)")
    case (Inl err)
    then have "err = CastError" by (rule castDate_Inl)
    with Inl mismatch show ?thesis by (simp add: login_wrong_password)
  next
    case (Inr t)
    with mismatch show ?thesis by (simp add: login_wrong_password)
  qed
next
  case (unverified s h)
  then show ?thesis by (simp add: login_unverified)
next
  case (pass s h)
  from login_success [OF pass(1-5), of env dev ip]
  obtain res w' where "loginAuthor X env now w e pw dev ip = (Inr res, w')"
    and "compares w' = Suc (compares w)"
    by auto
  with pass(6) show ?thesis by simp
qed

text \<open>
  C5 as stated fails for an inactive account with the correct password: in the
  order of the specification the password gate passes and \<^verbatim>\<open>isActive\<close> fails
  next; the code rejects the login at the lookup, with the reason of an unknown
  email and without invoking the hasher.
\<close>

theorem inactive_account_rejected_at_lookup:
  "spec_first_failing_gate X0 now0 [alice_inactive] ''alice@example.com'' ''secret'' = Some GateActive
   \<and> gate_reason GateActive = account_inactive
   \<and> loginAuthor X0 env_unset now0 (world_of alice_inactive) ''alice@example.com'' ''secret'' ''d'' ''i''
       = (Inl invalid_login, world_of alice_inactive)
   \<and> invalid_login \<noteq> account_inactive
   \<and> compares (snd (loginAuthor X0 env_unset now0 (world_of alice_inactive)
                       ''alice@example.com'' ''secret'' ''d'' ''i'')) = 0"
  by code_simp

text \<open>
  Claim C6. For every account whose \<^verbatim>\<open>lockUntil\<close> is in the future, login is
  rejected and the state is left as it was: the password hasher is not invoked,
  whatever the password and however the email is typed.
\<close>

theorem locked_login_rejected_without_hashing:
  assumes "distinct (map email (db w))" and "a \<in> set (db w)"
    and "lowercase_trim X e = email a"
    and "lockUntil a = Some until" and "now < until"
  shows "loginAuthor X env now w e pw dev ip = (Inl invalid_login, w)
         \<and> compares (snd (loginAuthor X env now w e pw dev ip)) = compares w"
proof -
  have locked: "isAccountLocked now a"
    using assms(4,5) by (simp add: isAccountLocked_def)
  have "findOne X (db w) e = (if isActive a then Some a else None)"
    unfolding findOne_def assms(3) using assms(1,2) by (rule find_distinct_email)
  then have "loginAuthor X env now w e pw dev ip = (Inl invalid_login, w)"
    using locked by (cases "isActive a") (simp_all add: login_not_found login_locked)
  then show ?thesis by simp
qed

text \<open>
  C6 at a concrete input: a locked account and the correct password.
\<close>

theorem locked_login_rejected_without_hashing_witness:
  "distinct (map email (db (world_of alice_locked)))
   \<and> alice_locked \<in> set (db (world_of alice_locked))
   \<and> lowercase_trim X0 ''alice@example.com'' = email alice_locked
   \<and> lockUntil alice_locked = Some (now0 + 1000) \<and> now0 < now0 + 1000
   \<and> bcrypt_compare X0 ''secret'' ''hash:secret''
   \<and> loginAuthor X0 env_unset now0 (world_of alice_locked) ''alice@example.com'' ''secret'' ''d'' ''i''
       = (Inl invalid_login, world_of alice_locked)"
proof -
  have n: "lowercase_trim X0 ''alice@example.com'' = email alice_locked" by code_simp
  from locked_login_rejected_without_hashing
          [of "world_of alice_locked" alice_locked X0 "''alice@example.com''" "now0 + 1000" now0
              env_unset "''secret''" "''d''" "''i''"] n
  show ?thesis
    by (simp add: world_of_def alice_locked_def alice_fields X0_def)
qed

text \<open>
  Claim C7. After a successful login the stored account has \<^verbatim>\<open>loginAttempts = 0\<close>
  and \<^verbatim>\<open>lockUntil = null\<close>, whatever they were before.
\<close>

theorem successful_login_resets_lockout:
  assumes "loginAuthor X env now w e pw dev ip = (Inr res, w')"
  shows "\<exists>s\<in>set (db w). email s = lowercase_trim X e \<and> view_id (author_view res) = doc_id s
           \<and> (\<exists>d\<in>set (db w'). doc_id d = doc_id s)
           \<and> (\<forall>d\<in>set (db w'). doc_id d = doc_id s \<longrightarrow> loginAttempts d = Some 0 \<and> lockUntil d = None)"
proof -
  from assms have "fst (loginAuthor X env now w e pw dev ip) = Inr res" by simp
  from login_Inr_D [OF this] obtain s h where
    s: "findOne X (db w) e = Some s" "\<not> isAccountLocked now s" "password s = Some h"
       "bcrypt_compare X pw h" "isVerified s"
    by blast
  from login_success [OF s, of env dev ip] assms
  have w': "db w' = update_by_id (doc_id s)
              (\<lambda>d. d\<lparr>loginAttempts := Some 0, lockUntil := None,
                     loginHistory := loginHistory d @ [\<lparr>device = dev, ipAddress = ip, timestamp = now\<rparr>],
                     lastActive := Some now,
                     refreshToken := Some (generateRefreshToken X now s),
                     updatedAt := Some now\<rparr>) (db w)"
    and v: "view_id (author_view res) = doc_id s"
    by auto
  from findOne_active [OF s(1)] have mem: "s \<in> set (db w)" and em: "email s = lowercase_trim X e" by simp_all
  have ex: "\<exists>d\<in>set (db w'). doc_id d = doc_id s"
    unfolding w' using update_by_id_mem [OF mem] by (rule rev_bexI) simp
  have all: "\<forall>d\<in>set (db w'). doc_id d = doc_id s \<longrightarrow> loginAttempts d = Some 0 \<and> lockUntil d = None"
    unfolding w' update_by_id_def by auto
  from mem em v ex all show ?thesis by blast
qed

text \<open>
  C7 at a concrete input: an account with three failed attempts and an expired
  lock logs in.
\<close>

theorem successful_login_resets_lockout_witness:
  "\<exists>res w'. loginAuthor X0 env_unset now0 (world_of (alice\<lparr>loginAttempts := Some 3, lockUntil := Some 5\<rparr>))
        ''alice@example.com'' ''secret'' ''d'' ''i'' = (Inr res, w')
     \<and> (\<forall>d\<in>set (db w'). doc_id d = 1 \<longrightarrow> loginAttempts d = Some 0 \<and> lockUntil d = None)"
proof -
  let ?a = "alice\<lparr>loginAttempts := Some 3, lockUntil := Some 5\<rparr>"
  have f: "findOne X0 (db (world_of ?a)) ''alice@example.com'' = Some ?a"
    by code_simp
  from login_success [OF f, of now0 "''hash:secret''" "''secret''" env_unset "''d''" "''i''"]
  obtain res w' where
    L: "loginAuthor X0 env_unset now0 (world_of ?a) ''alice@example.com'' ''secret'' ''d'' ''i'' = (Inr res, w')"
    by (auto simp: isAccountLocked_def now0_def alice_fields X0_def)
  from successful_login_resets_lockout [OF L] f
  have "\<forall>d\<in>set (db w'). doc_id d = 1 \<longrightarrow> loginAttempts d = Some 0 \<and> lockUntil d = None"
    by (auto simp: world_of_def alice_fields)
  with L show ?thesis by blast
qed

text \<open>
  Claim C8 at a failing input. The password was changed at second 2000 and the
  token was issued at second 1000, so \<^verbatim>\<open>changedPasswordAfter\<close> holds of the stored
  account; but \<^verbatim>\<open>verifyJWT\<close> loads the account without \<^verbatim>\<open>passwordChangedAt\<close>
  (declared \<^verbatim>\<open>select: false\<close> and not re-selected), and accepts the token.
\<close>

theorem password_change_not_enforced:
  "passwordChangedAt alice = Some 2000000 \<and> jwt_verify X0 ''access'' = Decoded 1 1000
   \<and> changedPasswordAfter alice 1000 = True
   \<and> verifyJWT X0 [alice] (Some ''access'') None = Inr (select_default alice)"
  by code_simp

text \<open>
  Claim C9. While the account is locked, \<^verbatim>\<open>incrementLoginAttempts\<close> performs no
  update: the collection is returned as it was.
\<close>

theorem locked_account_unchanged_by_increment:
  assumes "lockUntil this = Some until" and "now < until"
  shows "incrementLoginAttempts X env now this coll = Inr coll"
  using assms by (simp add: incrementLoginAttempts_def isAccountLocked_def)

text \<open>
  C9 at a concrete input.
\<close>

theorem locked_account_unchanged_by_increment_witness:
  "incrementLoginAttempts X0 env_unset now0 alice_locked [alice_locked] = Inr [alice_locked]"
  using locked_account_unchanged_by_increment [of alice_locked "now0 + 1000" now0 X0 env_unset "[alice_locked]"]
  by (simp add: alice_locked_def)

text \<open>
  Claim C10. For an account with no \<^verbatim>\<open>passwordChangedAt\<close>,
  \<^verbatim>\<open>changedPasswordAfter\<close> is false for every token timestamp, and \<^verbatim>\<open>verifyJWT\<close>
  never rejects a token of that account for a changed password.
\<close>

theorem unset_passwordChangedAt_never_rejects:
  assumes "passwordChangedAt a = None"
  shows "changedPasswordAfter a ts = False
       \<and> (findById coll i = Some a \<and> extract_token c h = Some tok \<and> jwt_verify X tok = Decoded i iat
            \<longrightarrow> verifyJWT X coll c h \<noteq> Inl password_changed)"
  using assms
  by (auto simp: changedPasswordAfter_def verifyJWT_def select_default_def password_changed_def)

text \<open>
  C10 at a concrete input.
\<close>

theorem unset_passwordChangedAt_never_rejects_witness:
  "passwordChangedAt (alice\<lparr>passwordChangedAt := None\<rparr>) = None
   \<and> changedPasswordAfter (alice\<lparr>passwordChangedAt := None\<rparr>) 1000 = False
   \<and> verifyJWT X0 [alice\<lparr>passwordChangedAt := None\<rparr>] (Some ''access'') None \<noteq> Inl password_changed"
  using unset_passwordChangedAt_never_rejects
    [of "alice\<lparr>passwordChangedAt := None\<rparr>" 1000 "[alice\<lparr>passwordChangedAt := None\<rparr>]" 1
        "Some ''access''" None "''access''" X0 1000]
  by (simp add: findById_def alice_def extract_token_def X0_def)

end
